theory Spec2Isabelle
  imports Main "HOL-Library.Word"
begin

section \<open>The bowling game of bowling-api.go\<close>

text \<open>
  The embedding follows \<^verbatim>\<open>src/bowling-api.go\<close>.

  \<^item> Go's \<^verbatim>\<open>int\<close> is a two's complement machine integer whose addition wraps
    around; on the 64-bit targets it has 64 bits. Pin counts, frame points and the score
    are therefore \<open>64 word\<close>, read as signed numbers with \<open>sint\<close>.
  \<^item> The cursor \<^verbatim>\<open>current\<close> and the loop variables \<^verbatim>\<open>throw\<close> and
    \<^verbatim>\<open>frame\<close> are counters. \<^verbatim>\<open>NewGame\<close> and the loop header set them to zero,
    the only assignments to them are increments by one or two, and the field is not
    exported, so none is ever negative; an increment of the cursor comes after a store
    that has not panicked, so none overflows either. They are natural numbers here.
  \<^item> Indexing a slice outside \<open>0 ..< len\<close> panics in Go. The panic is the error value
    \<open>IndexOutOfRange\<close>.
  \<^item> Every method has the receiver \<^verbatim>\<open>gm *Game\<close> and may thus change the game. A
    method is a function from the game (and its arguments) to a pair: the panic or the
    returned value, and the game as the call leaves it.
\<close>

type_synonym int64 = "64 word"

datatype error = IndexOutOfRange

record Game =
  rolls :: "int64 list"
  current :: nat

definition allPins :: int64 where
  "allPins = 10"

definition framesPerGame :: nat where
  "framesPerGame = 10"

definition maxThrowsPerGame :: nat where
  "maxThrowsPerGame = 21"

text \<open>\<^verbatim>\<open>NewGame\<close>: \<^verbatim>\<open>make([]int, maxThrowsPerGame)\<close> is a slice of 21 zeros, and
  \<^verbatim>\<open>new(Game)\<close> sets the cursor to zero.\<close>

definition NewGame :: Game where
  "NewGame = \<lparr>rolls = replicate maxThrowsPerGame 0, current = 0\<rparr>"

subsection \<open>Sequencing calls on the game\<close>

text \<open>A call that panicked stops the computation; otherwise the next call runs on the
  game the previous one left.\<close>

definition andThen ::
  "(error + 'a) \<times> Game \<Rightarrow> ('a \<Rightarrow> Game \<Rightarrow> (error + 'b) \<times> Game) \<Rightarrow> (error + 'b) \<times> Game" where
  "andThen m f = (case m of (Inl e, gm) \<Rightarrow> (Inl e, gm) | (Inr a, gm) \<Rightarrow> f a gm)"

text \<open>The read \<^verbatim>\<open>gm.rolls[i]\<close>.\<close>

definition rolls_at :: "Game \<Rightarrow> nat \<Rightarrow> (error + int64) \<times> Game" where
  "rolls_at gm i =
     (if i < length (rolls gm) then (Inr (rolls gm ! i), gm) else (Inl IndexOutOfRange, gm))"

subsection \<open>Roll\<close>

text \<open>\<^verbatim>\<open>gm.rolls[gm.current] = pins; gm.current++\<close>. The store panics before
  anything is written when the cursor is not an index of the slice.\<close>

definition Roll :: "Game \<Rightarrow> int64 \<Rightarrow> (error + unit) \<times> Game" where
  "Roll gm pins =
     (if current gm < length (rolls gm)
      then (Inr (), gm\<lparr>rolls := (rolls gm)[current gm := pins], current := current gm + 1\<rparr>)
      else (Inl IndexOutOfRange, gm))"

subsection \<open>Score and its helpers\<close>

definition framePointsAt :: "Game \<Rightarrow> nat \<Rightarrow> (error + int64) \<times> Game" where
  "framePointsAt gm throw =
     andThen (rolls_at gm throw) (\<lambda>a gm.
     andThen (rolls_at gm (throw + 1)) (\<lambda>b gm.
     (Inr (a + b), gm)))"

definition isStrike :: "Game \<Rightarrow> nat \<Rightarrow> (error + bool) \<times> Game" where
  "isStrike gm throw =
     andThen (rolls_at gm throw) (\<lambda>r gm. (Inr (r = allPins), gm))"

definition strikeBonusFor :: "Game \<Rightarrow> nat \<Rightarrow> (error + int64) \<times> Game" where
  "strikeBonusFor gm throw =
     andThen (framePointsAt gm (throw + 1)) (\<lambda>p gm. (Inr (allPins + p), gm))"

definition isSpare :: "Game \<Rightarrow> nat \<Rightarrow> (error + bool) \<times> Game" where
  "isSpare gm throw =
     andThen (framePointsAt gm throw) (\<lambda>p gm. (Inr (p = allPins), gm))"

definition spareBonusFor :: "Game \<Rightarrow> nat \<Rightarrow> (error + int64) \<times> Game" where
  "spareBonusFor gm throw =
     andThen (rolls_at gm (throw + 2)) (\<lambda>r gm. (Inr (allPins + r), gm))"

text \<open>The loop of \<^verbatim>\<open>Score\<close>, with its variables \<^verbatim>\<open>throw\<close>, \<^verbatim>\<open>frame\<close> and
  \<^verbatim>\<open>sum\<close> (here \<open>sm\<close>, since \<open>sum\<close> is a constant of HOL) as arguments.\<close>

function Score_loop :: "Game \<Rightarrow> nat \<Rightarrow> nat \<Rightarrow> int64 \<Rightarrow> (error + int64) \<times> Game" where
  "Score_loop gm throw frame sm =
     (if frame < framesPerGame then
        andThen (isStrike gm throw) (\<lambda>strike gm.
          if strike then
            andThen (strikeBonusFor gm throw) (\<lambda>b gm.
              Score_loop gm (throw + 1) (frame + 1) (sm + b))
          else
            andThen (isSpare gm throw) (\<lambda>spare gm.
              if spare then
                andThen (spareBonusFor gm throw) (\<lambda>b gm.
                  Score_loop gm (throw + 2) (frame + 1) (sm + b))
              else
                andThen (framePointsAt gm throw) (\<lambda>p gm.
                  Score_loop gm (throw + 2) (frame + 1) (sm + p))))
      else (Inr sm, gm))"
  by pat_completeness auto
termination
  by (relation "measure (\<lambda>(gm, throw, frame, sm). framesPerGame - frame)") auto

declare Score_loop.simps [simp del]

definition Score :: "Game \<Rightarrow> (error + int64) \<times> Game" where
  "Score gm = Score_loop gm 0 0 0"

subsection \<open>The testing utilities\<close>

text \<open>\<^verbatim>\<open>rollMany\<close> calls \<^verbatim>\<open>Roll\<close> in a loop over \<^verbatim>\<open>x\<close>; a count that is not
  positive means no call at all. Its argument \<^verbatim>\<open>times\<close> is \<open>ntimes\<close> here, since
  \<open>times\<close> is a constant of HOL.\<close>

function rollMany_loop :: "Game \<Rightarrow> int \<Rightarrow> int64 \<Rightarrow> int \<Rightarrow> (error + unit) \<times> Game" where
  "rollMany_loop gm ntimes pins x =
     (if x < ntimes then
        andThen (Roll gm pins) (\<lambda>_ gm. rollMany_loop gm ntimes pins (x + 1))
      else (Inr (), gm))"
  by pat_completeness auto
termination
  by (relation "measure (\<lambda>(gm, ntimes, pins, x). nat (ntimes - x))") auto

declare rollMany_loop.simps [simp del]

definition rollMany :: "Game \<Rightarrow> int \<Rightarrow> int64 \<Rightarrow> (error + unit) \<times> Game" where
  "rollMany gm ntimes pins = rollMany_loop gm ntimes pins 0"

definition rollSpare :: "Game \<Rightarrow> (error + unit) \<times> Game" where
  "rollSpare gm = andThen (Roll gm 5) (\<lambda>_ gm. Roll gm 5)"

definition rollStrike :: "Game \<Rightarrow> (error + unit) \<times> Game" where
  "rollStrike gm = Roll gm 10"

text \<open>A caller's sequence of \<^verbatim>\<open>Roll\<close> calls, one for each pin count of the list, in
  order.\<close>

fun roll_seq :: "Game \<Rightarrow> int64 list \<Rightarrow> (error + unit) \<times> Game" where
  "roll_seq gm [] = (Inr (), gm)"
| "roll_seq gm (pins # rest) = andThen (Roll gm pins) (\<lambda>_ gm. roll_seq gm rest)"

subsection \<open>The handler of POST /roll\<close>

text \<open>
  Of the request the handler reads the method and the body. The decoder of
  \<^verbatim>\<open>encoding/json\<close> is not code of this repository: it is the parameter \<open>decode\<close>,
  which gives \<open>None\<close> when \<^verbatim>\<open>Decode\<close> returns an error and otherwise the value left in
  \<^verbatim>\<open>roll.Pins\<close>. The response is its status code and what was written to the body.
  \<^verbatim>\<open>http.MethodPost\<close> is \<^verbatim>\<open>"POST"\<close>; the status codes are 405
  (\<^verbatim>\<open>StatusMethodNotAllowed\<close>), 400 (\<^verbatim>\<open>StatusBadRequest\<close>) and 201
  (\<^verbatim>\<open>StatusCreated\<close>).
\<close>

record Request =
  Method :: string
  Body :: string

datatype payload = ErrorText string | ScoreJSON int64

record Response =
  status :: nat
  written :: payload

definition RollHandler ::
  "(string \<Rightarrow> int64 option) \<Rightarrow> Game \<Rightarrow> Request \<Rightarrow> (error + Response) \<times> Game" where
  "RollHandler decode gm r =
     (if Method r \<noteq> ''POST'' then
        (Inr \<lparr>status = 405, written = ErrorText ''Invalid request method''\<rparr>, gm)
      else
        (case decode (Body r) of
           None \<Rightarrow> (Inr \<lparr>status = 400, written = ErrorText ''Invalid request body''\<rparr>, gm)
         | Some pins \<Rightarrow>
             andThen (Roll gm pins) (\<lambda>_ gm.
             andThen (Score gm) (\<lambda>score gm.
             (Inr \<lparr>status = 201, written = ScoreJSON score\<rparr>, gm)))))"

subsection \<open>The ten-frame algorithm of the specification\<close>

text \<open>
  The specification describes the score by a cursor \<open>t\<close> into the throws that starts at 0
  and is moved once for each of ten frames. At the cursor, a strike (\<open>throws[t] = 10\<close>)
  scores \<open>throws[t] + throws[t+1] + throws[t+2]\<close> and moves the cursor by 1; a spare
  (\<open>throws[t] + throws[t+1] = 10\<close>) scores \<open>10 + throws[t+2]\<close> and moves it by 2; an
  open frame scores \<open>throws[t] + throws[t+1]\<close> and moves it by 2. The score is the sum of
  the ten frame scores. The definitions below follow these words, for the throws as a
  function from positions to numbers of any commutative ring (the machine integers of
  the program, or the integers).
\<close>

definition ref_frame_score :: "(nat \<Rightarrow> 'a::comm_ring_1) \<Rightarrow> nat \<Rightarrow> 'a" where
  "ref_frame_score r t =
     (if r t = 10 then r t + r (t + 1) + r (t + 2)
      else if r t + r (t + 1) = 10 then 10 + r (t + 2)
      else r t + r (t + 1))"

definition ref_advance :: "(nat \<Rightarrow> 'a::comm_ring_1) \<Rightarrow> nat \<Rightarrow> nat" where
  "ref_advance r t =
     (if r t = 10 then t + 1
      else if r t + r (t + 1) = 10 then t + 2
      else t + 2)"

text \<open>The cursor at the start of frame \<open>k\<close> (frames are counted from 0).\<close>

primrec ref_cursor :: "(nat \<Rightarrow> 'a::comm_ring_1) \<Rightarrow> nat \<Rightarrow> nat" where
  "ref_cursor r 0 = 0"
| "ref_cursor r (Suc k) = ref_advance r (ref_cursor r k)"

definition reference_score :: "'a::comm_ring_1 list \<Rightarrow> 'a" where
  "reference_score rs =
     sum_list (map (\<lambda>k. ref_frame_score (\<lambda>i. rs ! i) (ref_cursor (\<lambda>i. rs ! i) k)) [0..<10])"

text \<open>The score of \<open>n\<close> frames from the cursor \<open>t\<close> on: the form of the reference
  algorithm that the proofs below induct on.\<close>

fun frames_from :: "(nat \<Rightarrow> 'a::comm_ring_1) \<Rightarrow> nat \<Rightarrow> nat \<Rightarrow> 'a" where
  "frames_from r t 0 = 0"
| "frames_from r t (Suc n) = ref_frame_score r t + frames_from r (ref_advance r t) n"

section \<open>The calls of Score, one by one\<close>

lemma andThen_Inr [simp]: "andThen (Inr a, gm) f = f a gm"
  by (simp add: andThen_def)

lemma andThen_Inl [simp]: "andThen (Inl e, gm) f = (Inl e, gm)"
  by (simp add: andThen_def)

text \<open>Each helper reads the slice at most up to \<open>throw + 2\<close>, panics exactly when its
  largest index is not one of the slice, and returns the game as it found it.\<close>

lemma framePointsAt_eq:
  "framePointsAt gm t =
     (if t + 1 < length (rolls gm) then Inr (rolls gm ! t + rolls gm ! (t + 1))
      else Inl IndexOutOfRange, gm)"
  by (simp add: framePointsAt_def rolls_at_def)

lemma isStrike_eq:
  "isStrike gm t =
     (if t < length (rolls gm) then Inr (rolls gm ! t = allPins) else Inl IndexOutOfRange, gm)"
  by (simp add: isStrike_def rolls_at_def)

lemma strikeBonusFor_eq:
  "strikeBonusFor gm t =
     (if t + 2 < length (rolls gm)
      then Inr (allPins + (rolls gm ! (t + 1) + rolls gm ! (t + 2)))
      else Inl IndexOutOfRange, gm)"
  by (simp add: strikeBonusFor_def framePointsAt_eq)

lemma isSpare_eq:
  "isSpare gm t =
     (if t + 1 < length (rolls gm) then Inr (rolls gm ! t + rolls gm ! (t + 1) = allPins)
      else Inl IndexOutOfRange, gm)"
  by (simp add: isSpare_def framePointsAt_eq)

lemma spareBonusFor_eq:
  "spareBonusFor gm t =
     (if t + 2 < length (rolls gm) then Inr (allPins + rolls gm ! (t + 2))
      else Inl IndexOutOfRange, gm)"
  by (simp add: spareBonusFor_def rolls_at_def)

lemmas helper_eqs =
  isStrike_eq strikeBonusFor_eq isSpare_eq spareBonusFor_eq framePointsAt_eq

section \<open>The loop of Score\<close>

text \<open>Whatever the loop returns, and also when it panics, it leaves the game as it
  was.\<close>

lemma Score_loop_state: "snd (Score_loop gm t f s) = gm"
proof (induction gm t f s rule: Score_loop.induct)
  case (1 gm throw frame sm)
  then show ?case
    by (subst Score_loop.simps) (auto simp add: helper_eqs)
qed

text \<open>The loop never looks at the cursor of the game.\<close>

lemma Score_loop_cursor:
  "fst (Score_loop (gm\<lparr>current := c\<rparr>) t f s) = fst (Score_loop gm t f s)"
proof (induction gm t f s rule: Score_loop.induct)
  case (1 gm throw frame sm)
  then show ?case
    by (simp add: Score_loop.simps [of _ throw frame sm] helper_eqs)
qed

text \<open>
  With \<open>n\<close> frames to go from the throw \<open>throw\<close>, the loop reads no position beyond
  \<open>throw + 2 * n\<close>. When that position is one of the slice, no read panics and the loop
  adds to \<open>sm\<close> the score of the remaining frames.
\<close>

lemma Score_loop_frames:
  "frame \<le> framesPerGame \<Longrightarrow> throw + 2 * (framesPerGame - frame) < length (rolls gm) \<Longrightarrow>
   Score_loop gm throw frame sm =
     (Inr (sm + frames_from (\<lambda>i. rolls gm ! i) throw (framesPerGame - frame)), gm)"
proof (induction "framesPerGame - frame" arbitrary: throw frame sm)
  case 0
  then show ?case by (simp add: Score_loop.simps)
next
  case (Suc n)
  then have less: "frame < framesPerGame" and n: "framesPerGame - (frame + 1) = n"
    and left: "framesPerGame - frame = Suc n"
    by simp_all
  have step: "Score_loop gm t (Suc frame) s =
      (Inr (s + frames_from (\<lambda>i. rolls gm ! i) t n), gm)"
    if "t \<le> Suc (Suc throw)" for t s
    using Suc.hyps(1) [of "Suc frame" t s] Suc.prems(2) that less n by simp
  show ?case
    using Suc.prems(2) less
    by (simp add: Score_loop.simps [of gm throw frame sm] helper_eqs left step
        ref_frame_score_def ref_advance_def allPins_def add.assoc)
qed

lemma Score_frames:
  "length (rolls gm) = maxThrowsPerGame \<Longrightarrow>
   Score gm = (Inr (frames_from (\<lambda>i. rolls gm ! i) 0 10), gm)"
  using Score_loop_frames [of 0 0 gm 0]
  by (simp add: Score_def framesPerGame_def maxThrowsPerGame_def)

text \<open>The sum of the frame scores at the cursors of the reference algorithm, frame by
  frame.\<close>

lemma frames_from_cursor:
  "frames_from r (ref_cursor r k) n =
     sum_list (map (\<lambda>j. ref_frame_score r (ref_cursor r j)) [k..<k + n])"
proof (induction n arbitrary: k)
  case 0
  show ?case by simp
next
  case (Suc n)
  have "[k..<k + Suc n] = k # [Suc k..<Suc k + n]"
    by (simp add: upt_rec)
  with Suc [of "Suc k"] show ?case
    by simp
qed

lemma reference_score_frames:
  "reference_score rs = frames_from (\<lambda>i. rs ! i) 0 10"
  using frames_from_cursor [of "\<lambda>i. rs ! i" 0 10] by (simp add: reference_score_def)

lemma NewGame_length: "length (rolls NewGame) = maxThrowsPerGame"
  by (simp add: NewGame_def)

section \<open>Machine integers and the integers\<close>

text \<open>
  The score is computed in Go's \<^verbatim>\<open>int\<close>. As long as no sum leaves the range of 64
  bits, the signed value of what the program computes is what the same algorithm gives on
  the integers, where the bounds and the order of scores are proved.
\<close>

lemma sint_int64_of_int:
  "- (2 ^ 63) \<le> x \<Longrightarrow> x < 2 ^ 63 \<Longrightarrow> sint (word_of_int x :: int64) = x"
  by (simp add: signed_of_int signed_take_bit_int_eq_self)

lemma int64_eq_ten: "(w = (10 :: int64)) = (sint w = 10)"
proof -
  have "(w = 10) = (sint w = sint (10 :: int64))"
    by (rule word_eq_iff_signed)
  then show ?thesis
    by simp
qed

lemma int64_sum_eq_ten:
  fixes a b :: int64
  assumes "- (2 ^ 62) \<le> sint a" "sint a < 2 ^ 62" "- (2 ^ 62) \<le> sint b" "sint b < 2 ^ 62"
  shows "(a + b = 10) = (sint a + sint b = 10)"
proof -
  have "a + b = word_of_int (sint a + sint b)"
    by simp
  moreover have "sint (word_of_int (sint a + sint b) :: int64) = sint a + sint b"
    using assms by (intro sint_int64_of_int) simp_all
  ultimately have "sint (a + b) = sint a + sint b"
    by simp
  then show ?thesis
    by (simp add: int64_eq_ten)
qed

lemma ref_advance_le: "ref_advance r t \<le> t + 2"
  by (simp add: ref_advance_def)

lemma ref_advance_sint:
  fixes r :: "nat \<Rightarrow> int64"
  assumes "- (2 ^ 62) \<le> sint (r t)" "sint (r t) < 2 ^ 62"
    "- (2 ^ 62) \<le> sint (r (t + 1))" "sint (r (t + 1)) < 2 ^ 62"
  shows "ref_advance r t = ref_advance (\<lambda>i. sint (r i)) t"
  using int64_sum_eq_ten [OF assms] by (simp add: ref_advance_def int64_eq_ten)

lemma ref_frame_score_sint:
  fixes r :: "nat \<Rightarrow> int64"
  assumes "- (2 ^ 62) \<le> sint (r t)" "sint (r t) < 2 ^ 62"
    "- (2 ^ 62) \<le> sint (r (t + 1))" "sint (r (t + 1)) < 2 ^ 62"
  shows "ref_frame_score r t = word_of_int (ref_frame_score (\<lambda>i. sint (r i)) t)"
  using int64_sum_eq_ten [OF assms] by (simp add: ref_frame_score_def int64_eq_ten)

text \<open>\<open>n\<close> frames from \<open>t\<close> read the positions up to \<open>t + 2 * n\<close> only; \<open>m\<close> is a
  bound on them.\<close>

lemma frames_from_sint:
  fixes r :: "nat \<Rightarrow> int64"
  assumes "t + 2 * n \<le> m"
    and "\<And>i. i \<le> m \<Longrightarrow> - (2 ^ 62) \<le> sint (r i) \<and> sint (r i) < 2 ^ 62"
  shows "frames_from r t n = word_of_int (frames_from (\<lambda>i. sint (r i)) t n)"
  using assms(1)
proof (induction n arbitrary: t)
  case 0
  show ?case by simp
next
  case (Suc n)
  have b: "- (2 ^ 62) \<le> sint (r t)" "sint (r t) < 2 ^ 62"
    "- (2 ^ 62) \<le> sint (r (t + 1))" "sint (r (t + 1)) < 2 ^ 62"
    using assms(2) [of t] assms(2) [of "t + 1"] Suc.prems by simp_all
  have "ref_advance (\<lambda>i. sint (r i)) t + 2 * n \<le> m"
    using ref_advance_le [of "\<lambda>i. sint (r i)" t] Suc.prems by simp
  from Suc.IH [OF this] show ?case
    by (simp add: ref_advance_sint [OF b] ref_frame_score_sint [OF b])
qed

subsection \<open>The algorithm on the integers\<close>

lemma ref_frame_score_bounds:
  fixes x :: "nat \<Rightarrow> int"
  assumes "\<And>i. i \<le> t + 2 \<Longrightarrow> 0 \<le> x i \<and> x i \<le> B"
  shows "0 \<le> ref_frame_score x t \<and> ref_frame_score x t \<le> 10 + 2 * B"
  using assms [of t] assms [of "t + 1"] assms [of "t + 2"]
  by (auto simp add: ref_frame_score_def)

lemma frames_from_bounds:
  fixes x :: "nat \<Rightarrow> int"
  assumes "t + 2 * n \<le> m" and "\<And>i. i \<le> m \<Longrightarrow> 0 \<le> x i \<and> x i \<le> B"
  shows "0 \<le> frames_from x t n \<and> frames_from x t n \<le> int n * (10 + 2 * B)"
  using assms(1)
proof (induction n arbitrary: t)
  case 0
  show ?case by simp
next
  case (Suc n)
  have "ref_advance x t + 2 * n \<le> m"
    using ref_advance_le [of x t] Suc.prems by simp
  from Suc.IH [OF this] ref_frame_score_bounds [of t x B] assms(2) Suc.prems
  show ?case
    by (simp add: algebra_simps)
qed

lemma ref_frame_score_abs:
  fixes x :: "nat \<Rightarrow> int"
  assumes "\<And>i. i \<le> t + 2 \<Longrightarrow> \<bar>x i\<bar> \<le> B"
  shows "\<bar>ref_frame_score x t\<bar> \<le> 10 + 2 * B"
  using assms [of t] assms [of "t + 1"] assms [of "t + 2"]
  by (auto simp add: ref_frame_score_def)

lemma frames_from_abs:
  fixes x :: "nat \<Rightarrow> int"
  assumes "t + 2 * n \<le> m" and "\<And>i. i \<le> m \<Longrightarrow> \<bar>x i\<bar> \<le> B"
  shows "\<bar>frames_from x t n\<bar> \<le> int n * (10 + 2 * B)"
  using assms(1)
proof (induction n arbitrary: t)
  case 0
  show ?case by simp
next
  case (Suc n)
  have "ref_advance x t + 2 * n \<le> m"
    using ref_advance_le [of x t] Suc.prems by simp
  from Suc.IH [OF this] ref_frame_score_abs [of t x B] assms(2) Suc.prems
  show ?case
    by (simp add: algebra_simps)
qed

text \<open>Frames over throws that are all zero score nothing.\<close>

lemma frames_from_zero:
  fixes x :: "nat \<Rightarrow> int"
  assumes "t + 2 * n \<le> m" and "\<And>i. t \<le> i \<Longrightarrow> i \<le> m \<Longrightarrow> x i = 0"
  shows "frames_from x t n = 0"
  using assms
proof (induction n arbitrary: t)
  case 0
  show ?case by simp
next
  case (Suc n)
  have z: "x t = 0" "x (t + 1) = 0"
    using Suc.prems by simp_all
  then have "ref_advance x t = t + 2" "ref_frame_score x t = 0"
    by (simp_all add: ref_advance_def ref_frame_score_def)
  moreover have "frames_from x (t + 2) n = 0"
    using Suc.prems by (intro Suc.IH) simp_all
  ultimately show ?case
    by simp
qed

text \<open>The frames from \<open>t\<close> on depend on the throws from \<open>t\<close> on only.\<close>

lemma frames_from_cong:
  fixes x y :: "nat \<Rightarrow> int"
  assumes "t + 2 * n \<le> m" and "\<And>i. t \<le> i \<Longrightarrow> i \<le> m \<Longrightarrow> x i = y i"
  shows "frames_from x t n = frames_from y t n"
  using assms
proof (induction n arbitrary: t)
  case 0
  show ?case by simp
next
  case (Suc n)
  have e: "x t = y t" "x (t + 1) = y (t + 1)" "x (t + 2) = y (t + 2)"
    using Suc.prems by simp_all
  then have same: "ref_advance x t = ref_advance y t"
    "ref_frame_score x t = ref_frame_score y t"
    by (simp_all add: ref_advance_def ref_frame_score_def)
  have "t < ref_advance y t" "ref_advance y t \<le> t + 2"
    by (simp_all add: ref_advance_def)
  then have "frames_from x (ref_advance y t) n = frames_from y (ref_advance y t) n"
    using Suc.prems by (intro Suc.IH) simp_all
  with same show ?case
    by simp
qed

text \<open>
  Recording a throw: \<open>x\<close> are the throws before the call, zero from the cursor \<open>k\<close> on,
  and \<open>y\<close> are the throws after it, which differ from \<open>x\<close> at \<open>k\<close> only, where the
  pins are not negative. No frame before \<open>k\<close> changes its start; the frames that look
  ahead to \<open>k\<close> gain the pins, a frame that starts at \<open>k\<close> scores the pins, and the
  frames after it score nothing in both.
\<close>

lemma frames_from_mono:
  fixes x y :: "nat \<Rightarrow> int"
  assumes range: "t + 2 * n \<le> m"
    and same: "\<And>i. i \<le> m \<Longrightarrow> i \<noteq> k \<Longrightarrow> y i = x i"
    and zero: "\<And>i. k \<le> i \<Longrightarrow> i \<le> m \<Longrightarrow> x i = 0"
    and pins: "0 \<le> y k"
  shows "frames_from x t n \<le> frames_from y t n"
  using range
proof (induction n arbitrary: t)
  case 0
  show ?case by simp
next
  case (Suc n)
  have le: "x i \<le> y i" if "i \<le> m" for i
    using same [of i] zero [of i] pins that by (cases "i = k") simp_all
  consider "k < t" | "t = k" | "t < k"
    by linarith
  then show ?case
  proof cases
    case 1
    have "frames_from x t (Suc n) = frames_from y t (Suc n)"
      using Suc.prems 1 same by (intro frames_from_cong [of t "Suc n" m]) simp_all
    then show ?thesis by simp
  next
    case 2
    have "frames_from x t (Suc n) = 0"
      using Suc.prems 2 zero by (intro frames_from_zero [of t "Suc n" m]) simp_all
    moreover have y1: "y (k + 1) = 0" "y (k + 2) = 0"
      using Suc.prems 2 same [of "k + 1"] zero [of "k + 1"] same [of "k + 2"] zero [of "k + 2"]
      by simp_all
    have "ref_frame_score y k = y k"
      using y1 by (simp add: ref_frame_score_def)
    moreover have "frames_from y (ref_advance y k) n = 0"
    proof (rule frames_from_zero [of _ n m])
      show "ref_advance y k + 2 * n \<le> m"
        using ref_advance_le [of y k] Suc.prems 2 by simp
      show "y i = 0" if "ref_advance y k \<le> i" "i \<le> m" for i
      proof -
        have "k < i"
          using that(1) by (simp add: ref_advance_def split: if_splits)
        then show ?thesis
          using same [of i] zero [of i] that(2) by simp
      qed
    qed
    ultimately show ?thesis
      using pins 2 by simp
  next
    case 3
    have t: "y t = x t"
      using same [of t] 3 Suc.prems by simp
    then have adv: "ref_advance y t = ref_advance x t"
      by (simp add: ref_advance_def)
    have "ref_advance x t + 2 * n \<le> m"
      using ref_advance_le [of x t] Suc.prems by simp
    then have rest: "frames_from x (ref_advance x t) n \<le> frames_from y (ref_advance x t) n"
      by (rule Suc.IH)
    have l1: "x (t + 1) \<le> y (t + 1)" and l2: "x (t + 2) \<le> y (t + 2)"
      using le [of "t + 1"] le [of "t + 2"] Suc.prems by simp_all
    have "ref_frame_score x t \<le> ref_frame_score y t"
    proof (cases "t + 1 = k")
      case True
      then have "x (t + 1) = 0" "y (t + 2) = 0" "x (t + 2) = 0"
        using zero [of "t + 1"] zero [of "t + 2"] same [of "t + 2"] Suc.prems by simp_all
      then show ?thesis
        using t l1 by (auto simp add: ref_frame_score_def)
    next
      case False
      then have "y (t + 1) = x (t + 1)"
        using same [of "t + 1"] Suc.prems by simp
      then show ?thesis
        using t l2 by (auto simp add: ref_frame_score_def)
    qed
    with rest adv show ?thesis
      by simp
  qed
qed

subsection \<open>Score on rolls of absolute value at most \<open>2 ^ 58\<close>\<close>

text \<open>Ten frames add at most thirty throws, so with throws of this size no sum wraps
  around, and the signed value of the score is the score on the integers.\<close>

lemma Score_sint:
  assumes len: "length (rolls gm) = maxThrowsPerGame"
    and small: "\<And>i. i \<le> 20 \<Longrightarrow> \<bar>sint (rolls gm ! i)\<bar> \<le> B"
    and B: "B \<le> 2 ^ 58"
  shows "\<exists>s. Score gm = (Inr s, gm) \<and> sint s = frames_from (\<lambda>i. sint (rolls gm ! i)) 0 10"
proof -
  let ?x = "\<lambda>i. sint (rolls gm ! i)"
  have "frames_from (\<lambda>i. rolls gm ! i) 0 10 = word_of_int (frames_from ?x 0 10)"
  proof (rule frames_from_sint [of 0 10 20])
    show "- (2 ^ 62) \<le> ?x i \<and> ?x i < 2 ^ 62" if "i \<le> 20" for i
    proof -
      have "(2 :: int) ^ 58 < 2 ^ 62"
        by simp
      with small [OF that] B show ?thesis
        by linarith
    qed
  qed simp
  moreover have "\<bar>frames_from ?x 0 10\<bar> \<le> int 10 * (10 + 2 * B)"
    by (rule frames_from_abs [of 0 10 20]) (simp_all add: small)
  then have "sint (word_of_int (frames_from ?x 0 10) :: int64) = frames_from ?x 0 10"
    using B by (intro sint_int64_of_int) simp_all
  ultimately show ?thesis
    using len by (simp add: Score_frames)
qed

text \<open>On such rolls \<^verbatim>\<open>Score\<close> is the ten-frame algorithm of the specification read
  on the integers.\<close>

lemma Score_reference_integers:
  assumes len: "length (rolls gm) = maxThrowsPerGame"
    and small: "\<forall>p \<in> set (rolls gm). \<bar>sint p\<bar> \<le> 2 ^ 58"
  shows "\<exists>s. Score gm = (Inr s, gm) \<and> sint s = reference_score (map sint (rolls gm))"
proof -
  have "frames_from (\<lambda>i. sint (rolls gm ! i)) 0 10
      = frames_from (\<lambda>i. map sint (rolls gm) ! i) 0 10"
    using len by (intro frames_from_cong [of 0 10 20]) (simp_all add: maxThrowsPerGame_def)
  moreover have "\<bar>sint (rolls gm ! i)\<bar> \<le> 2 ^ 58" if "i \<le> 20" for i
    using len small that by (simp add: maxThrowsPerGame_def)
  ultimately show ?thesis
    using Score_sint [OF len, of "2 ^ 58"] by (simp add: reference_score_frames)
qed

section \<open>Sequences of Roll calls\<close>

lemma Roll_ok:
  "current gm < length (rolls gm) \<Longrightarrow>
   Roll gm pins =
     (Inr (), \<lparr>rolls = (rolls gm)[current gm := pins], current = Suc (current gm)\<rparr>)"
  by (simp add: Roll_def)

lemma roll_seq_state:
  "current gm + length qs \<le> length (rolls gm) \<Longrightarrow>
   roll_seq gm qs =
     (Inr (),
      \<lparr>rolls = take (current gm) (rolls gm) @ qs @ drop (current gm + length qs) (rolls gm),
       current = current gm + length qs\<rparr>)"
proof (induction qs arbitrary: gm)
  case Nil
  then show ?case by simp
next
  case (Cons q qs)
  let ?g = "\<lparr>rolls = (rolls gm)[current gm := q], current = Suc (current gm)\<rparr>"
  have c: "current gm < length (rolls gm)"
    using Cons.prems by simp
  have "current ?g + length qs \<le> length (rolls ?g)"
    using Cons.prems by simp
  from Cons.IH [OF this] c show ?case
    by (simp add: Roll_ok take_Suc_conv_app_nth)
qed

text \<open>After the calls the slots hold the pins rolled so far, in order, and zeros from the
  cursor on.\<close>

lemma roll_seq_NewGame:
  "length qs \<le> 21 \<Longrightarrow>
   roll_seq NewGame qs =
     (Inr (), \<lparr>rolls = qs @ replicate (21 - length qs) 0, current = length qs\<rparr>)"
  using roll_seq_state [of NewGame qs] by (simp add: NewGame_def maxThrowsPerGame_def)

section \<open>Score against the specification\<close>

text \<open>
  Claim C1. On every game whose slice has the 21 slots that \<^verbatim>\<open>NewGame\<close> allocates,
  \<^verbatim>\<open>Score\<close> returns the value of the ten-frame algorithm of the specification: a
  cursor that starts at 0, ten frames, a strike scoring \<open>rolls[t] + rolls[t+1] +
  rolls[t+2]\<close> and moving the cursor by 1, a spare scoring \<open>10 + rolls[t+2]\<close> and an
  open frame scoring \<open>rolls[t] + rolls[t+1]\<close>, both moving it by 2, and the score the
  sum of the ten frame scores. The numbers on both sides are Go's \<^verbatim>\<open>int\<close>, whose
  sums wrap around; for rolls of absolute value at most \<open>2 ^ 58\<close> nothing wraps and the
  score is also that of the algorithm on the integers (\<open>Score_reference_integers\<close>).
\<close>

theorem Score_is_reference:
  "length (rolls gm) = maxThrowsPerGame \<Longrightarrow>
   fst (Score gm) = Inr (reference_score (rolls gm))"
  by (simp add: Score_frames reference_score_frames)

theorem Score_is_reference_witness:
  "length (rolls \<lparr>rolls = [10, 7, 3, 4, 2] @ replicate 16 0, current = 5\<rparr>) = maxThrowsPerGame
   \<and> fst (Score \<lparr>rolls = [10, 7, 3, 4, 2] @ replicate 16 0, current = 5\<rparr>)
       = Inr (reference_score ([10, 7, 3, 4, 2] @ replicate 16 0))
   \<and> reference_score ([10, 7, 3, 4, 2] @ replicate 16 0) = (40 :: int64)"
proof -
  have "reference_score ([10, 7, 3, 4, 2] @ replicate 16 0) = (40 :: int64)"
    by code_simp
  with Score_is_reference [of "\<lparr>rolls = [10, 7, 3, 4, 2] @ replicate 16 0, current = 5\<rparr>"]
  show ?thesis
    by (simp add: maxThrowsPerGame_def)
qed

text \<open>
  Claim C2. The games that the specification lists score what it says. A perfect game,
  twelve throws of 10 pins rolled into a new game, scores 300; a strike followed by 3 and
  4 and sixteen throws of 0 scores 24; twenty throws of 1 pin score 20. The throws are
  rolled with the testing utilities of the source, and no call panics.
\<close>

theorem Score_listed_games:
  "fst (andThen (rollMany NewGame 12 10) (\<lambda>_. Score)) = Inr 300
   \<and> fst (andThen (rollStrike NewGame) (\<lambda>_ gm.
           andThen (Roll gm 3) (\<lambda>_ gm.
           andThen (Roll gm 4) (\<lambda>_ gm.
           andThen (rollMany gm 16 0) (\<lambda>_. Score))))) = Inr 24
   \<and> fst (andThen (rollMany NewGame 20 1) (\<lambda>_. Score)) = Inr 20"
  by code_simp

text \<open>
  Claim C3. \<^verbatim>\<open>Score\<close> never panics on a game whose slice has 21 slots, whatever
  the slots hold and wherever the cursor stands. In the embedding every read of
  \<^verbatim>\<open>gm.rolls\<close>, the look-ahead reads at \<open>throw + 1\<close> and \<open>throw + 2\<close> included, is
  checked against the length of the slice and a read outside \<open>0 .. 20\<close> ends the call
  with \<open>IndexOutOfRange\<close>; so a returned value says that every index read was in
  bounds.
\<close>

theorem Score_never_panics:
  "length (rolls gm) = maxThrowsPerGame \<Longrightarrow> \<exists>s. Score gm = (Inr s, gm)"
  by (simp add: Score_frames)

theorem Score_never_panics_witness:
  "length (rolls (snd (rollMany NewGame 21 10))) = maxThrowsPerGame
   \<and> (\<exists>s. Score (snd (rollMany NewGame 21 10)) = (Inr s, snd (rollMany NewGame 21 10)))"
proof -
  have len: "length (rolls (snd (rollMany NewGame 21 10))) = maxThrowsPerGame"
    by code_simp
  from len Score_never_panics [OF len] show ?thesis by simp
qed

text \<open>The bound of 21 slots is what keeps the reads in range: on a slice of 20 slots
  whose tenth frame is a spare, the look-ahead read at position 20 panics.\<close>

lemma Score_short_slice_panics:
  "fst (Score \<lparr>rolls = replicate 18 0 @ [5, 5], current = 20\<rparr>) = Inl IndexOutOfRange"
  by code_simp

text \<open>
  Claim C5. \<^verbatim>\<open>Score\<close> is pure: the call leaves the game, its slice and its cursor,
  exactly as it was, and a second call right after the first returns the same.
\<close>

theorem Score_pure:
  "snd (Score gm) = gm \<and> Score (snd (Score gm)) = Score gm"
  by (simp add: Score_def Score_loop_state)

text \<open>
  Claim C9. \<^verbatim>\<open>Score\<close> depends on the slice of rolls only: two games with the same
  rolls get the same result, whatever their cursors are.
\<close>

theorem Score_ignores_cursor:
  "rolls g1 = rolls g2 \<Longrightarrow> fst (Score g1) = fst (Score g2)"
proof -
  assume "rolls g1 = rolls g2"
  then have "g1 = g2\<lparr>current := current g1\<rparr>"
    by simp
  then show ?thesis
    by (metis Score_def Score_loop_cursor)
qed

theorem Score_ignores_cursor_witness:
  "rolls \<lparr>rolls = [3, 7, 10] @ replicate 18 0, current = 3\<rparr>
     = rolls \<lparr>rolls = [3, 7, 10] @ replicate 18 0, current = 17\<rparr>
   \<and> fst (Score \<lparr>rolls = [3, 7, 10] @ replicate 18 0, current = 3\<rparr>)
     = fst (Score \<lparr>rolls = [3, 7, 10] @ replicate 18 0, current = 17\<rparr>)"
  using Score_ignores_cursor [of "\<lparr>rolls = [3, 7, 10] @ replicate 18 0, current = 3\<rparr>"
      "\<lparr>rolls = [3, 7, 10] @ replicate 18 0, current = 17\<rparr>"]
  by simp

text \<open>
  Claim C10. On a slice of 21 slots whose entries all lie between 0 and 10, \<^verbatim>\<open>Score\<close>
  returns a value between 0 and 300.
\<close>

theorem Score_range:
  assumes "length (rolls gm) = maxThrowsPerGame"
    and "\<forall>p \<in> set (rolls gm). 0 \<le> sint p \<and> sint p \<le> 10"
  shows "\<exists>s. fst (Score gm) = Inr s \<and> 0 \<le> sint s \<and> sint s \<le> 300"
proof -
  have small: "0 \<le> sint (rolls gm ! i) \<and> sint (rolls gm ! i) \<le> 10" if "i \<le> 20" for i
    using assms that by (simp add: maxThrowsPerGame_def)
  have "\<bar>sint (rolls gm ! i)\<bar> \<le> 10" if "i \<le> 20" for i
    using small [OF that] by linarith
  with Score_sint [OF assms(1), of 10]
  obtain s where s: "Score gm = (Inr s, gm)"
    "sint s = frames_from (\<lambda>i. sint (rolls gm ! i)) 0 10"
    by auto
  have "0 \<le> frames_from (\<lambda>i. sint (rolls gm ! i)) 0 10
      \<and> frames_from (\<lambda>i. sint (rolls gm ! i)) 0 10 \<le> int 10 * (10 + 2 * 10)"
    by (rule frames_from_bounds [of 0 10 20]) (simp_all add: small)
  with s show ?thesis
    by simp
qed

theorem Score_range_witness:
  "length (rolls \<lparr>rolls = replicate 12 10 @ replicate 9 0, current = 12\<rparr>) = maxThrowsPerGame
   \<and> (\<exists>s. fst (Score \<lparr>rolls = replicate 12 10 @ replicate 9 0, current = 12\<rparr>) = Inr s
         \<and> 0 \<le> sint s \<and> sint s \<le> 300)"
proof -
  let ?gm = "\<lparr>rolls = replicate 12 10 @ replicate 9 0, current = 12\<rparr>"
  have len: "length (rolls ?gm) = maxThrowsPerGame"
    by (simp add: maxThrowsPerGame_def)
  have pins: "\<forall>p \<in> set (rolls ?gm). 0 \<le> sint p \<and> sint p \<le> 10"
    by simp
  from len Score_range [OF len pins] show ?thesis
    by simp
qed

section \<open>Roll\<close>

text \<open>
  Claim C6. When the cursor is less than 21, \<^verbatim>\<open>Roll(pins)\<close> returns without a
  panic, has written \<open>pins\<close>, whatever integer it is, into the slot at the cursor, has
  moved the cursor by one and has left every other slot as it was.
\<close>

theorem Roll_effect:
  "length (rolls gm) = maxThrowsPerGame \<Longrightarrow> current gm < 21 \<Longrightarrow>
   fst (Roll gm pins) = Inr ()
   \<and> rolls (snd (Roll gm pins)) ! current gm = pins
   \<and> current (snd (Roll gm pins)) = current gm + 1
   \<and> length (rolls (snd (Roll gm pins))) = length (rolls gm)
   \<and> (\<forall>i. i \<noteq> current gm \<longrightarrow> rolls (snd (Roll gm pins)) ! i = rolls gm ! i)"
  by (simp add: Roll_def maxThrowsPerGame_def)

theorem Roll_effect_witness:
  "fst (Roll \<lparr>rolls = [4, 5] @ replicate 19 0, current = 2\<rparr> (- 3)) = Inr ()
   \<and> snd (Roll \<lparr>rolls = [4, 5] @ replicate 19 0, current = 2\<rparr> (- 3))
       = \<lparr>rolls = [4, 5, - 3] @ replicate 18 0, current = 3\<rparr>"
proof -
  let ?gm = "\<lparr>rolls = [4, 5] @ replicate 19 0, current = 2\<rparr>"
  have "length (rolls ?gm) = maxThrowsPerGame" and "current ?gm < 21"
    by (simp_all add: maxThrowsPerGame_def)
  from Roll_effect [OF this, of "- 3"] have "fst (Roll ?gm (- 3)) = Inr ()"
    by simp
  moreover have "snd (Roll ?gm (- 3)) = \<lparr>rolls = [4, 5, - 3] @ replicate 18 0, current = 3\<rparr>"
    by code_simp
  ultimately show ?thesis
    by simp
qed

text \<open>
  Claim C7. On the slice of 21 slots that \<^verbatim>\<open>NewGame\<close> allocates, the store of
  \<^verbatim>\<open>Roll\<close> is in bounds exactly when the cursor is less than 21; once the cursor has
  reached or passed 21 the call panics with an index out of range, before it has written
  anything.
\<close>

theorem Roll_in_bounds_iff:
  "length (rolls gm) = maxThrowsPerGame \<Longrightarrow>
   (fst (Roll gm pins) = Inr ()) = (current gm < 21)
   \<and> (Roll gm pins = (Inl IndexOutOfRange, gm)) = (21 \<le> current gm)"
  by (auto simp add: Roll_def maxThrowsPerGame_def)

theorem Roll_in_bounds_iff_witness:
  "length (rolls (snd (rollMany NewGame 21 1))) = maxThrowsPerGame
   \<and> current (snd (rollMany NewGame 21 1)) = 21
   \<and> Roll (snd (rollMany NewGame 21 1)) 1 = (Inl IndexOutOfRange, snd (rollMany NewGame 21 1))"
proof -
  let ?gm = "snd (rollMany NewGame 21 1)"
  have len: "length (rolls ?gm) = maxThrowsPerGame"
    by code_simp
  have cur: "current ?gm = 21"
    by code_simp
  from Roll_in_bounds_iff [OF len, of 1] cur len show ?thesis
    by simp
qed

section \<open>The score from call to call\<close>

text \<open>
  Claim C4, as amended. The claim is that the score never goes down from one
  \<^verbatim>\<open>Roll\<close> call to the next when the pins are not negative and at most 21 throws are
  recorded. With Go's 64-bit \<^verbatim>\<open>int\<close> this needs a bound on the pins: for every
  sequence of \<^verbatim>\<open>Roll\<close> calls on a new game, of at most 21 calls with pins between 0
  and \<open>2 ^ 58\<close>, no call panics and the score after each call is at least the score before
  it. Here \<open>qs\<close> are the pins of the calls made so far and \<open>p\<close> the pins of the next
  call.
\<close>

theorem Score_monotone:
  assumes len: "length qs < 21"
    and pins: "\<forall>q \<in> set (qs @ [p]). 0 \<le> sint q \<and> sint q \<le> 2 ^ 58"
  shows "\<exists>g g' s s'. roll_seq NewGame qs = (Inr (), g) \<and> Roll g p = (Inr (), g')
     \<and> Score g = (Inr s, g) \<and> Score g' = (Inr s', g') \<and> sint s \<le> sint s'"
proof -
  let ?k = "length qs"
  let ?g = "\<lparr>rolls = qs @ replicate (21 - ?k) 0, current = ?k\<rparr>"
  let ?g' = "\<lparr>rolls = (rolls ?g)[?k := p], current = Suc ?k\<rparr>"
  let ?x = "\<lambda>i. sint (rolls ?g ! i)"
  let ?y = "\<lambda>i. sint (rolls ?g' ! i)"
  have before: "roll_seq NewGame qs = (Inr (), ?g)"
    using len by (simp add: roll_seq_NewGame)
  have call: "Roll ?g p = (Inr (), ?g')"
    using len by (simp add: Roll_ok)
  have x: "0 \<le> ?x i \<and> ?x i \<le> 2 ^ 58" if "i \<le> 20" for i
    using pins that len by (cases "i < ?k") (simp_all add: nth_append)
  have yk: "?y ?k = sint p"
    using len by simp
  have y_other: "?y i = ?x i" if "i \<noteq> ?k" for i
    using that by simp
  have y: "0 \<le> ?y i \<and> ?y i \<le> 2 ^ 58" if "i \<le> 20" for i
    using x [OF that] yk y_other [of i] pins by (cases "i = ?k") simp_all
  have zero: "?x i = 0" if "?k \<le> i" "i \<le> 20" for i
    using that len by (simp add: nth_append)
  have "\<bar>?x i\<bar> \<le> 2 ^ 58" if "i \<le> 20" for i
    using x [OF that] by linarith
  with Score_sint [of ?g "2 ^ 58"] obtain s
    where s: "Score ?g = (Inr s, ?g)" "sint s = frames_from ?x 0 10"
    using len by (auto simp add: maxThrowsPerGame_def)
  have "\<bar>?y i\<bar> \<le> 2 ^ 58" if "i \<le> 20" for i
    using y [OF that] by linarith
  with Score_sint [of ?g' "2 ^ 58"] obtain s'
    where s': "Score ?g' = (Inr s', ?g')" "sint s' = frames_from ?y 0 10"
    using len by (auto simp add: maxThrowsPerGame_def)
  have "frames_from ?x 0 10 \<le> frames_from ?y 0 10"
  proof (rule frames_from_mono [of 0 10 20 "?k"])
    show "?y ?k \<ge> 0"
      using yk pins by simp
  qed (use y_other zero in simp_all)
  with before call s s' show ?thesis
    by (intro exI [of _ ?g] exI [of _ ?g'] exI [of _ s] exI [of _ s']) simp
qed

theorem Score_monotone_witness:
  "\<exists>g g' s s'. roll_seq NewGame [10, 3] = (Inr (), g) \<and> Roll g 4 = (Inr (), g')
     \<and> Score g = (Inr s, g) \<and> Score g' = (Inr s', g') \<and> sint s \<le> sint s'"
proof -
  have len: "length [10 :: int64, 3] < 21"
    by simp
  have pins: "\<forall>q \<in> set ([10, 3] @ [4 :: int64]). 0 \<le> sint q \<and> sint q \<le> 2 ^ 58"
    by simp
  from Score_monotone [OF len pins] show ?thesis .
qed

text \<open>
  Without the bound the score can go down. The pins 9223372036854775807, the largest
  \<^verbatim>\<open>int\<close>, and then 1 are not negative; after the first call the score is
  9223372036854775807, after the second the sum of the first frame has wrapped around and
  the score is -9223372036854775808.
\<close>

theorem Score_monotone_counterexample:
  "0 \<le> sint (9223372036854775807 :: int64) \<and> 0 \<le> sint (1 :: int64)
   \<and> roll_seq NewGame [9223372036854775807]
       = (Inr (), \<lparr>rolls = 9223372036854775807 # replicate 20 0, current = 1\<rparr>)
   \<and> Roll \<lparr>rolls = 9223372036854775807 # replicate 20 0, current = 1\<rparr> 1
       = (Inr (), \<lparr>rolls = 9223372036854775807 # 1 # replicate 19 0, current = 2\<rparr>)
   \<and> fst (Score \<lparr>rolls = 9223372036854775807 # replicate 20 0, current = 1\<rparr>)
       = Inr 9223372036854775807
   \<and> fst (Score \<lparr>rolls = 9223372036854775807 # 1 # replicate 19 0, current = 2\<rparr>)
       = Inr (- 9223372036854775808)
   \<and> sint (- 9223372036854775808 :: int64) < sint (9223372036854775807 :: int64)"
  by code_simp

section \<open>The handler of POST /roll\<close>

text \<open>
  Claim C8. When the body of a POST request to \<^verbatim>\<open>/roll\<close> does not decode, the
  handler answers with the status 400 and does not touch the game: \<^verbatim>\<open>Roll\<close> is not
  called, the slice and the cursor are as before the request.
\<close>

theorem RollHandler_malformed_body:
  "Method r = ''POST'' \<Longrightarrow> decode (Body r) = None \<Longrightarrow>
   RollHandler decode gm r =
     (Inr \<lparr>status = 400, written = ErrorText ''Invalid request body''\<rparr>, gm)"
  by (simp add: RollHandler_def)

theorem RollHandler_malformed_body_witness:
  "RollHandler (\<lambda>b. if b = ''{pins: 4}'' then Some 4 else None)
       \<lparr>rolls = [10, 2] @ replicate 19 0, current = 2\<rparr> \<lparr>Method = ''POST'', Body = ''pins''\<rparr>
     = (Inr \<lparr>status = 400, written = ErrorText ''Invalid request body''\<rparr>,
        \<lparr>rolls = [10, 2] @ replicate 19 0, current = 2\<rparr>)"
  using RollHandler_malformed_body [of "\<lparr>Method = ''POST'', Body = ''pins''\<rparr>"
      "\<lambda>b. if b = ''{pins: 4}'' then Some 4 else None"
      "\<lparr>rolls = [10, 2] @ replicate 19 0, current = 2\<rparr>"]
  by simp

end
